theory Spec2Isabelle
  imports Main "HOL-Library.Finite_Map"
begin

section \<open>JSON values and the log file\<close>

text \<open>
  The values that \<^verbatim>\<open>json.loads\<close> returns and \<^verbatim>\<open>json.dumps\<close> accepts. A Python
  \<^verbatim>\<open>dict\<close> is a finite map: the program only looks keys up (\<^verbatim>\<open>record["k"]\<close>,
  \<^verbatim>\<open>record.get("k")\<close>), filters items by key, and serialises with
  \<^verbatim>\<open>sort_keys=True\<close>, so the insertion order of a dict is never observed.
  Floating-point numbers are kept opaque (the type parameter \<open>'f\<close>): the program
  stores and copies them, and the three operations that are applied to them are the
  parameter \<open>float_ops\<close> below.
\<close>

datatype 'f json =
    JNull
  | JBool bool
  | JInt int
  | JFloat 'f
  | JStr string
  | JList "'f json list"
  | JDict "(string, 'f json) fmap"

type_synonym 'f dict = "(string, 'f json) fmap"

text \<open>
  One line of \<^verbatim>\<open>decision_log.jsonl\<close>, seen through \<^verbatim>\<open>json.loads\<close>: either text that
  raises \<^verbatim>\<open>JSONDecodeError\<close>, or text that decodes to a JSON value. The JSON text
  syntax itself belongs to the \<^verbatim>\<open>json\<close> library and is not modelled; two lines that
  decode to the same value are the same line here.
\<close>

datatype 'f line = NotJson string | Json "'f json"

fun json_loads :: "'f line \<Rightarrow> 'f json option" where
  "json_loads (NotJson text) = None"
| "json_loads (Json v) = Some v"

text \<open>
  The state of \<^verbatim>\<open>LOG_FILE\<close>: \<open>None\<close> when the file does not exist, otherwise its
  lines in physical order (\<open>Some []\<close> is the file of size 0).
\<close>

type_synonym 'f log_file = "'f line list option"

text \<open>The exceptions that leave the functions modelled below.\<close>

datatype error =
    KeyError string
  | TypeError
  | AttributeError
  | ValidationError
  | BadParameter "string list"
  | MarkupError
  | OSError

section \<open>The record model\<close>

text \<open>
  The operations on floating-point numbers that occur in the program and in the
  schema: \<^verbatim>\<open>float(n)\<close> for an integer \<open>n\<close>, the truth value \<^verbatim>\<open>bool(x)\<close> and the text
  \<^verbatim>\<open>str(x)\<close> of a float \<open>x\<close>. They are a parameter of every function that needs one.
\<close>

record 'f float_ops =
  py_float :: "int \<Rightarrow> 'f"
  py_bool :: "'f \<Rightarrow> bool"
  py_str :: "'f \<Rightarrow> string"

text \<open>
  Modelled from the spec: the class \<^verbatim>\<open>DecisionRecord\<close> of \<^verbatim>\<open>schema.py\<close>, which is not
  among the sources. Its fields and their types are those of section 3 of the
  specification.
\<close>

record 'f DecisionRecord =
  decision_id :: string
  timestamp :: string
  model :: string
  config :: "'f dict"
  prompt :: string
  context_sources :: "string list"
  output' :: string
  confidence :: "'f option"
  risk_flags :: "string list"
  prev_hash :: string
  hash :: string

definition as_str :: "'f json option \<Rightarrow> string option" where
  "as_str v = (case v of Some (JStr s) \<Rightarrow> Some s | _ \<Rightarrow> None)"

definition as_strs :: "'f json option \<Rightarrow> string list option" where
  "as_strs v = (case v of Some (JList xs) \<Rightarrow> those (map (\<lambda>x. as_str (Some x)) xs) | _ \<Rightarrow> None)"

definition as_dict :: "'f json option \<Rightarrow> 'f dict option" where
  "as_dict v = (case v of Some (JDict d) \<Rightarrow> Some d | _ \<Rightarrow> None)"

text \<open>
  The optional floating value: absent or null means not reported, a float is kept,
  and a number of another kind is converted to a float, as the validation of a
  float field does (\<^verbatim>\<open>1\<close> becomes \<^verbatim>\<open>1.0\<close>; a Python \<^verbatim>\<open>bool\<close> is an \<^verbatim>\<open>int\<close>).
\<close>

definition as_confidence :: "'f float_ops \<Rightarrow> 'f json option \<Rightarrow> 'f option option" where
  "as_confidence fl v =
     (case v of
        None \<Rightarrow> Some None
      | Some JNull \<Rightarrow> Some None
      | Some (JFloat x) \<Rightarrow> Some (Some x)
      | Some (JInt n) \<Rightarrow> Some (Some (py_float fl n))
      | Some (JBool b) \<Rightarrow> Some (Some (py_float fl (if b then 1 else 0)))
      | Some _ \<Rightarrow> None)"

definition or_default :: "'a \<Rightarrow> ('f json option \<Rightarrow> 'a option) \<Rightarrow> 'f json option \<Rightarrow> 'a option" where
  "or_default dflt conv v = (case v of None \<Rightarrow> Some dflt | Some x \<Rightarrow> conv (Some x))"

text \<open>
  Modelled from the spec: the construction \<^verbatim>\<open>DecisionRecord(**kwargs)\<close>, which is also
  what \<^verbatim>\<open>DecisionRecord.parse_obj(kwargs)\<close> does (\<^verbatim>\<open>schema.py\<close> is not among the
  sources). Every field of section 3 is validated against its type: the text fields
  take a string, \<^verbatim>\<open>config\<close> a mapping, the two sequences a list of strings,
  \<^verbatim>\<open>confidence\<close> an optional float. \<^verbatim>\<open>decision_id\<close> and \<^verbatim>\<open>timestamp\<close> are generated when
  they are not given (\<open>generated_id\<close> and \<open>generated_time\<close> are the values that the
  generators produce at this call), \<^verbatim>\<open>risk_flags\<close> defaults to the empty sequence, and
  a key that names no field is ignored. A value that its field does not take raises
  the validation error. The record holds the validated values, which for
  \<^verbatim>\<open>confidence\<close> need not be the value that was given.
\<close>

definition DecisionRecord_init ::
  "'f float_ops \<Rightarrow> string \<Rightarrow> string \<Rightarrow> 'f dict \<Rightarrow> error + 'f DecisionRecord" where
  "DecisionRecord_init fl generated_id generated_time kwargs =
     (case
        Option.bind (or_default generated_id as_str (fmlookup kwargs ''decision_id'')) (\<lambda>i.
        Option.bind (or_default generated_time as_str (fmlookup kwargs ''timestamp'')) (\<lambda>t.
        Option.bind (as_str (fmlookup kwargs ''model'')) (\<lambda>m.
        Option.bind (as_dict (fmlookup kwargs ''config'')) (\<lambda>cfg.
        Option.bind (as_str (fmlookup kwargs ''prompt'')) (\<lambda>p.
        Option.bind (as_strs (fmlookup kwargs ''context_sources'')) (\<lambda>cs.
        Option.bind (as_str (fmlookup kwargs ''output'')) (\<lambda>out.
        Option.bind (as_confidence fl (fmlookup kwargs ''confidence'')) (\<lambda>conf.
        Option.bind (or_default [] as_strs (fmlookup kwargs ''risk_flags'')) (\<lambda>flags.
        Option.bind (as_str (fmlookup kwargs ''prev_hash'')) (\<lambda>ph.
        Option.bind (as_str (fmlookup kwargs ''hash'')) (\<lambda>h.
          Some \<lparr>decision_id = i, timestamp = t, model = m, config = cfg, prompt = p,
                context_sources = cs, output' = out, confidence = conf,
                risk_flags = flags, prev_hash = ph, hash = h\<rparr>)))))))))))
      of
        None \<Rightarrow> Inl ValidationError
      | Some record \<Rightarrow> Inr record)"

definition json_of_strs :: "string list \<Rightarrow> 'f json" where
  "json_of_strs xs = JList (map JStr xs)"

definition json_of_confidence :: "'f option \<Rightarrow> 'f json" where
  "json_of_confidence c = (case c of None \<Rightarrow> JNull | Some x \<Rightarrow> JFloat x)"

text \<open>
  Modelled from the spec: the JSON object that \<^verbatim>\<open>final_record.json()\<close> writes and that
  \<^verbatim>\<open>json.loads\<close> reads back, with the eleven field names of section 6.
\<close>

definition record_dict :: "'f DecisionRecord \<Rightarrow> 'f dict" where
  "record_dict r = fmap_of_list
     [(''decision_id'', JStr (decision_id r)),
      (''timestamp'', JStr (timestamp r)),
      (''model'', JStr (model r)),
      (''config'', JDict (config r)),
      (''prompt'', JStr (prompt r)),
      (''context_sources'', json_of_strs (context_sources r)),
      (''output'', JStr (output' r)),
      (''confidence'', json_of_confidence (confidence r)),
      (''risk_flags'', json_of_strs (risk_flags r)),
      (''prev_hash'', JStr (prev_hash r)),
      (''hash'', JStr (hash r))]"

section \<open>hasher.py\<close>

text \<open>
  Two library functions are parameters of everything below:
  \<^item> \<open>sha256\<close> stands for \<^verbatim>\<open>lambda s: hashlib.sha256(s.encode()).hexdigest()\<close>;
  \<^item> \<open>dumps\<close> stands for \<^verbatim>\<open>lambda v: json.dumps(v, sort_keys=True)\<close>.
  Every theorem holds for every choice of the two.
\<close>

definition genesis_hash :: "(string \<Rightarrow> string) \<Rightarrow> string" where
  "genesis_hash sha256 = sha256 ''genesis_block''"

text \<open>
  \<^verbatim>\<open>get_last_hash\<close>. The backward seek to the last newline followed by
  \<^verbatim>\<open>readline\<close> reads the last line of a file that is not empty. A line that does not
  decode (the empty text included) gives the genesis hash; \<^verbatim>\<open>last_record.get\<close> raises
  \<^verbatim>\<open>AttributeError\<close> on a value that is not a dict, and returns whatever JSON value is
  stored under \<^verbatim>\<open>"hash"\<close>.
\<close>

definition get_last_hash :: "(string \<Rightarrow> string) \<Rightarrow> 'f log_file \<Rightarrow> error + 'f json" where
  "get_last_hash sha256 log =
     (case log of
        None \<Rightarrow> Inr (JStr (genesis_hash sha256))
      | Some [] \<Rightarrow> Inr (JStr (genesis_hash sha256))
      | Some (l # ls) \<Rightarrow>
          (case json_loads (last (l # ls)) of
             None \<Rightarrow> Inr (JStr (genesis_hash sha256))
           | Some (JDict last_record) \<Rightarrow>
               (case fmlookup last_record ''hash'' of
                  None \<Rightarrow> Inr (JStr (genesis_hash sha256))
                | Some h \<Rightarrow> Inr h)
           | Some _ \<Rightarrow> Inl AttributeError))"

definition calculate_hash ::
  "(string \<Rightarrow> string) \<Rightarrow> ('f json \<Rightarrow> string) \<Rightarrow> 'f dict \<Rightarrow> string" where
  "calculate_hash sha256 dumps record_data =
     (let hashable_data = fmdrop ''hash'' record_data;
          encoded_string = dumps (JDict hashable_data)
      in sha256 encoded_string)"

text \<open>
  \<^verbatim>\<open>verify_chain\<close>. What the function prints is kept as a list of findings, each
  with its 1-based line number; the loop state is \<^verbatim>\<open>previous_hash\<close>, \<^verbatim>\<open>is_valid\<close>
  and the findings printed so far.
\<close>

datatype finding = DecodeError nat | ChainLinkError nat | TamperError nat

record verify_state =
  previous_hash :: string
  is_valid :: bool
  printed :: "finding list"

definition report :: "finding \<Rightarrow> verify_state \<Rightarrow> verify_state" where
  "report f st = st\<lparr>is_valid := False, printed := printed st @ [f]\<rparr>"

text \<open>
  One iteration of the loop body, for the line with index \<open>i\<close> of \<^verbatim>\<open>enumerate\<close>.
  \<^verbatim>\<open>record["prev_hash"]\<close> and \<^verbatim>\<open>record["hash"]\<close> raise \<^verbatim>\<open>KeyError\<close> on a dict without
  the key and \<^verbatim>\<open>TypeError\<close> on a value that is not a dict; only
  \<^verbatim>\<open>JSONDecodeError\<close> is caught.
\<close>

definition verify_line ::
  "(string \<Rightarrow> string) \<Rightarrow> ('f json \<Rightarrow> string) \<Rightarrow> nat \<Rightarrow> 'f line \<Rightarrow> verify_state
     \<Rightarrow> error + verify_state" where
  "verify_line sha256 dumps i line st =
     (let line_num = i + 1 in
      case json_loads line of
        None \<Rightarrow> Inr (report (DecodeError line_num) st)
      | Some (JDict record) \<Rightarrow>
          (case fmlookup record ''prev_hash'' of
             None \<Rightarrow> Inl (KeyError ''prev_hash'')
           | Some p \<Rightarrow>
               (let st1 = (if p \<noteq> JStr (previous_hash st)
                           then report (ChainLinkError line_num) st else st);
                    recalculated_hash = calculate_hash sha256 dumps record
                in case fmlookup record ''hash'' of
                     None \<Rightarrow> Inl (KeyError ''hash'')
                   | Some h \<Rightarrow>
                       (let st2 = (if h \<noteq> JStr recalculated_hash
                                   then report (TamperError line_num) st1 else st1)
                        in Inr (st2\<lparr>previous_hash := recalculated_hash\<rparr>))))
      | Some _ \<Rightarrow> Inl TypeError)"

fun verify_lines ::
  "(string \<Rightarrow> string) \<Rightarrow> ('f json \<Rightarrow> string) \<Rightarrow> nat \<Rightarrow> 'f line list \<Rightarrow> verify_state
     \<Rightarrow> error + verify_state" where
  "verify_lines sha256 dumps i [] st = Inr st"
| "verify_lines sha256 dumps i (line # rest) st =
     (case verify_line sha256 dumps i line st of
        Inl e \<Rightarrow> Inl e
      | Inr st' \<Rightarrow> verify_lines sha256 dumps (i + 1) rest st')"

definition verify_chain ::
  "(string \<Rightarrow> string) \<Rightarrow> ('f json \<Rightarrow> string) \<Rightarrow> 'f log_file
     \<Rightarrow> error + (finding list \<times> bool)" where
  "verify_chain sha256 dumps log =
     (case log of
        None \<Rightarrow> Inr ([], True)
      | Some [] \<Rightarrow> Inr ([], True)
      | Some (l # ls) \<Rightarrow>
          (case verify_lines sha256 dumps 0 (l # ls)
                  \<lparr>previous_hash = genesis_hash sha256, is_valid = True, printed = []\<rparr> of
             Inl e \<Rightarrow> Inl e
           | Inr st \<Rightarrow> Inr (printed st, is_valid st)))"

text \<open>The loop state before the first line.\<close>

definition initial_state :: "(string \<Rightarrow> string) \<Rightarrow> verify_state" where
  "initial_state sha256 = \<lparr>previous_hash = genesis_hash sha256, is_valid = True, printed = []\<rparr>"


section \<open>logger.py\<close>

text \<open>
  The arguments of one call of \<^verbatim>\<open>log_decision\<close>. The annotations of the signature are
  not enforced, and the command \<^verbatim>\<open>log\<close> passes on whatever values the input file
  holds, so an argument is any JSON value (\<^verbatim>\<open>None\<close> is \<open>JNull\<close>). With them come the
  two values that the default factories of the record generate during the call
  (\<open>new_id\<close> for \<^verbatim>\<open>decision_id\<close>, \<open>now\<close> for \<^verbatim>\<open>timestamp\<close>).
\<close>

record 'f candidate =
  arg_model :: "'f json"
  arg_config :: "'f json"
  arg_prompt :: "'f json"
  arg_context_sources :: "'f json"
  arg_output :: "'f json"
  arg_confidence :: "'f json"
  arg_risk_flags :: "'f json"
  new_id :: string
  now :: string

text \<open>The truth value of a Python value, as \<^verbatim>\<open>risk_flags or []\<close> tests it.\<close>

fun truthy :: "'f float_ops \<Rightarrow> 'f json \<Rightarrow> bool" where
  "truthy fl JNull = False"
| "truthy fl (JBool b) = b"
| "truthy fl (JInt n) = (n \<noteq> 0)"
| "truthy fl (JFloat x) = py_bool fl x"
| "truthy fl (JStr s) = (s \<noteq> [])"
| "truthy fl (JList xs) = (xs \<noteq> [])"
| "truthy fl (JDict d) = (d \<noteq> fmempty)"

text \<open>
  The dict \<^verbatim>\<open>partial_data\<close>: the arguments as they were passed, and the tail hash
  \<open>prev\<close> as \<^verbatim>\<open>get_last_hash\<close> returned it.
\<close>

definition partial_data_of :: "'f float_ops \<Rightarrow> 'f candidate \<Rightarrow> 'f json \<Rightarrow> 'f dict" where
  "partial_data_of fl c prev =
     (let risk_flags = (if arg_risk_flags c = JNull then JList [] else arg_risk_flags c)
      in fmap_of_list
        [(''model'', arg_model c),
         (''config'', arg_config c),
         (''prompt'', arg_prompt c),
         (''context_sources'', arg_context_sources c),
         (''output'', arg_output c),
         (''confidence'', arg_confidence c),
         (''risk_flags'', if truthy fl risk_flags then risk_flags else JList []),
         (''prev_hash'', prev)])"

text \<open>
  \<^verbatim>\<open>log_decision\<close> returns the final record and the log file after the write. The
  temporary record is built to obtain the generated \<^verbatim>\<open>decision_id\<close> and
  \<^verbatim>\<open>timestamp\<close>; the hash is computed over \<^verbatim>\<open>record_data_for_hashing\<close>, which holds
  the arguments as they were passed; the line written is the JSON form of the final
  record, which holds the validated values. A validation error of either
  construction leaves the function before anything is written.
\<close>

definition log_decision ::
  "'f float_ops \<Rightarrow> (string \<Rightarrow> string) \<Rightarrow> ('f json \<Rightarrow> string) \<Rightarrow> 'f candidate \<Rightarrow> 'f log_file
     \<Rightarrow> error + ('f DecisionRecord \<times> 'f log_file)" where
  "log_decision fl sha256 dumps c log =
     (case get_last_hash sha256 log of
        Inl e \<Rightarrow> Inl e
      | Inr prev \<Rightarrow>
          (let partial_data = partial_data_of fl c prev in
           case DecisionRecord_init fl (new_id c) (now c)
                  (fmupd ''hash'' (JStr ''dummy_hash'') partial_data) of
             Inl e \<Rightarrow> Inl e
           | Inr temp_record \<Rightarrow>
               (let record_data_for_hashing =
                      fmupd ''timestamp'' (JStr (timestamp temp_record))
                        (fmupd ''decision_id'' (JStr (decision_id temp_record)) partial_data);
                    current_hash = calculate_hash sha256 dumps record_data_for_hashing
                in case DecisionRecord_init fl (new_id c) (now c)
                          (fmupd ''hash'' (JStr current_hash) record_data_for_hashing) of
                     Inl e \<Rightarrow> Inl e
                   | Inr final_record \<Rightarrow>
                       Inr (final_record,
                            Some ((case log of None \<Rightarrow> [] | Some ls \<Rightarrow> ls)
                                  @ [Json (JDict (record_dict final_record))])))))"

text \<open>The dict \<^verbatim>\<open>record_data_for_hashing\<close> of \<^verbatim>\<open>log_decision\<close>, for the tail hash \<open>prev\<close>.\<close>

definition data_for_hashing :: "'f float_ops \<Rightarrow> 'f candidate \<Rightarrow> 'f json \<Rightarrow> 'f dict" where
  "data_for_hashing fl c prev =
     fmupd ''timestamp'' (JStr (now c))
       (fmupd ''decision_id'' (JStr (new_id c)) (partial_data_of fl c prev))"

text \<open>A run of successive calls of \<^verbatim>\<open>log_decision\<close>, each on the file the previous one left.\<close>

fun log_all ::
  "'f float_ops \<Rightarrow> (string \<Rightarrow> string) \<Rightarrow> ('f json \<Rightarrow> string) \<Rightarrow> 'f candidate list \<Rightarrow> 'f log_file
     \<Rightarrow> error + 'f log_file" where
  "log_all fl sha256 dumps [] log = Inr log"
| "log_all fl sha256 dumps (c # cs) log =
     (case log_decision fl sha256 dumps c log of
        Inl e \<Rightarrow> Inl e
      | Inr (r, log') \<Rightarrow> log_all fl sha256 dumps cs log')"

section \<open>replay.py\<close>

text \<open>
  What \<^verbatim>\<open>replay_decision\<close> prints: the error message for a missing log file, the
  rendered record, or the not-found message. The function itself returns a bool.
\<close>

datatype 'f console =
    PrintLogFileNotFound
  | PrintRecord "'f DecisionRecord"
  | PrintIdNotFound string

text \<open>
  The console of the \<^verbatim>\<open>rich\<close> library reads a string that it prints as markup and
  raises \<^verbatim>\<open>MarkupError\<close> on a text that is not valid markup (a closing tag that closes
  nothing, for one). Which texts it accepts belongs to the library: it is the
  parameter \<open>markup_ok\<close>.

  \<^verbatim>\<open>_display_record\<close> builds a tree whose labels and panel titles are markup; the
  fields of the record are put into them as they are. \<open>display_labels\<close> lists these
  texts in the order of the source (the pictograph that starts some of the labels is
  left out). The prompt and the output are wrapped in \<^verbatim>\<open>Text\<close> and the configuration
  in \<^verbatim>\<open>Syntax\<close>, which are printed as they are.
\<close>

fun join :: "string \<Rightarrow> string list \<Rightarrow> string" where
  "join sep [] = []"
| "join sep [x] = x"
| "join sep (x # y # ys) = x @ sep @ join sep (y # ys)"

definition display_labels :: "'f float_ops \<Rightarrow> 'f DecisionRecord \<Rightarrow> string list" where
  "display_labels fl record =
     (let risk_flags_str =
            (if risk_flags record \<noteq> [] then join '', '' (risk_flags record) else ''None'')
      in [''[bold cyan]Decision Replay: '' @ decision_id record @ ''[/bold cyan]'',
          ''[bold]Core Information[/bold]'',
          ''[bold]Timestamp:[/bold] '' @ timestamp record,
          ''[bold]Model:[/bold] '' @ model record,
          ''[green]Model Config[/green]'',
          ''[yellow]Prompt[/yellow]'',
          ''[magenta]Output[/magenta]'',
          ''[bold]Metadata[/bold]'',
          ''[bold]Context Sources:[/bold] '' @ join '', '' (context_sources record),
          ''[bold]Confidence:[/bold] ''
            @ (case confidence record of None \<Rightarrow> ''N/A'' | Some x \<Rightarrow> py_str fl x),
          ''[bold]Risk Flags:[/bold] [yellow]'' @ risk_flags_str @ ''[/yellow]'',
          ''[bold]Integrity Chain[/bold]'',
          ''[bold]Previous Hash:[/bold] '' @ prev_hash record,
          ''[bold]Record Hash:[/bold] [bold green]'' @ hash record @ ''[/bold green]''])"

definition display_record ::
  "(string \<Rightarrow> bool) \<Rightarrow> 'f float_ops \<Rightarrow> 'f DecisionRecord \<Rightarrow> error + 'f console" where
  "display_record markup_ok fl record =
     (if list_all markup_ok (display_labels fl record)
      then Inr (PrintRecord record) else Inl MarkupError)"

text \<open>The markup that is printed when no line carries the wanted identifier.\<close>

definition not_found_message :: "string \<Rightarrow> string" where
  "not_found_message wanted_id =
     ''[bold red]Decision ID '' @ [CHR 0x27] @ wanted_id @ [CHR 0x27] @ '' not found.[/bold red]''"

text \<open>
  The loop over the lines. \<^verbatim>\<open>DecisionRecord.parse_obj\<close> belongs to \<^verbatim>\<open>schema.py\<close>, which
  is not among the sources: it is the parameter \<open>parse_obj\<close>, returning \<open>None\<close> where
  the schema raises its validation error. Only \<^verbatim>\<open>JSONDecodeError\<close> is caught, so the
  validation error, the \<^verbatim>\<open>AttributeError\<close> of \<^verbatim>\<open>record_data.get\<close> on a value that is not
  a dict and the \<^verbatim>\<open>MarkupError\<close> of the console leave the function.
\<close>

fun replay_lines ::
  "(string \<Rightarrow> bool) \<Rightarrow> 'f float_ops \<Rightarrow> ('f dict \<Rightarrow> 'f DecisionRecord option) \<Rightarrow> string
     \<Rightarrow> 'f line list \<Rightarrow> error + ('f console \<times> bool)" where
  "replay_lines markup_ok fl parse_obj wanted_id [] =
     (if markup_ok (not_found_message wanted_id)
      then Inr (PrintIdNotFound wanted_id, False) else Inl MarkupError)"
| "replay_lines markup_ok fl parse_obj wanted_id (line # rest) =
     (case json_loads line of
        None \<Rightarrow> replay_lines markup_ok fl parse_obj wanted_id rest
      | Some (JDict record_data) \<Rightarrow>
          (if fmlookup record_data ''decision_id'' = Some (JStr wanted_id)
           then (case parse_obj record_data of
                   None \<Rightarrow> Inl ValidationError
                 | Some record \<Rightarrow>
                     (case display_record markup_ok fl record of
                        Inl e \<Rightarrow> Inl e
                      | Inr shown \<Rightarrow> Inr (shown, True)))
           else replay_lines markup_ok fl parse_obj wanted_id rest)
      | Some _ \<Rightarrow> Inl AttributeError)"

text \<open>
  \<^verbatim>\<open>replay_decision\<close>. \<open>readable\<close> says whether \<^verbatim>\<open>open(LOG_FILE, "r")\<close> succeeds on the
  file that exists; where it does not, \<^verbatim>\<open>open\<close> raises \<^verbatim>\<open>OSError\<close>, which nothing
  catches.
\<close>

definition replay_decision ::
  "(string \<Rightarrow> bool) \<Rightarrow> 'f float_ops \<Rightarrow> ('f dict \<Rightarrow> 'f DecisionRecord option) \<Rightarrow> bool
     \<Rightarrow> 'f log_file \<Rightarrow> string \<Rightarrow> error + ('f console \<times> bool)" where
  "replay_decision markup_ok fl parse_obj readable log wanted_id =
     (case log of
        None \<Rightarrow> Inr (PrintLogFileNotFound, False)
      | Some ls \<Rightarrow>
          (if readable then replay_lines markup_ok fl parse_obj wanted_id ls
           else Inl OSError))"

section \<open>cli.py\<close>

definition required_fields :: "string list" where
  "required_fields = [''model'', ''config'', ''prompt'', ''context_sources'', ''output'']"

text \<open>\<^verbatim>\<open>data.get(key)\<close>: the value under the key, \<^verbatim>\<open>None\<close> when there is none.\<close>

definition dict_get :: "'f dict \<Rightarrow> string \<Rightarrow> 'f json" where
  "dict_get data key = (case fmlookup data key of None \<Rightarrow> JNull | Some v \<Rightarrow> v)"

text \<open>
  The command \<^verbatim>\<open>log\<close>, from the parsed input mapping \<open>data\<close> on. Every exception
  raised inside the \<^verbatim>\<open>try\<close> block, the \<^verbatim>\<open>BadParameter\<close> for missing fields included, is
  caught by \<^verbatim>\<open>except Exception\<close>, printed after \<^verbatim>\<open>An error occurred:\<close>, and replaced by
  \<^verbatim>\<open>click.Abort\<close>; \<open>Abort e\<close> keeps the exception \<open>e\<close> whose message was printed. The
  names of the missing fields are joined in the iteration order of a Python set; the
  list below has them in the order of \<^verbatim>\<open>required_fields\<close>.

  The values of \<open>data\<close> are passed to \<^verbatim>\<open>log_decision\<close> as they are. The five subscripts
  \<^verbatim>\<open>data["model"]\<close> and so on come after the check that their keys are present, where
  they are \<^verbatim>\<open>data.get\<close>. \<open>generated_id\<close> and \<open>generated_time\<close> are the identifier and
  the time that the record generates during the call.
\<close>

datatype cli_failure = Abort error

definition cli_log ::
  "'f float_ops \<Rightarrow> (string \<Rightarrow> string) \<Rightarrow> ('f json \<Rightarrow> string) \<Rightarrow> string \<Rightarrow> string
     \<Rightarrow> 'f dict \<Rightarrow> 'f log_file \<Rightarrow> (cli_failure + 'f DecisionRecord) \<times> 'f log_file" where
  "cli_log fl sha256 dumps generated_id generated_time data log_file =
     (if \<not> list_all (\<lambda>field. field |\<in>| fmdom data) required_fields
      then (let missing = filter (\<lambda>field. field |\<notin>| fmdom data) required_fields
            in (Inl (Abort (BadParameter missing)), log_file))
      else (case log_decision fl sha256 dumps
                   \<lparr>arg_model = dict_get data ''model'',
                    arg_config = dict_get data ''config'',
                    arg_prompt = dict_get data ''prompt'',
                    arg_context_sources = dict_get data ''context_sources'',
                    arg_output = dict_get data ''output'',
                    arg_confidence = dict_get data ''confidence'',
                    arg_risk_flags = dict_get data ''risk_flags'',
                    new_id = generated_id, now = generated_time\<rparr>
                   log_file of
              Inl e \<Rightarrow> (Inl (Abort e), log_file)
            | Inr (record, log_file') \<Rightarrow> (Inr record, log_file')))"

section \<open>The chain, in the words of the specification\<close>

text \<open>
  A line passes its checks when it parses as a record (a JSON object), its
  \<^verbatim>\<open>prev_hash\<close> is the expected predecessor hash and its stored \<^verbatim>\<open>hash\<close> is the
  recomputed digest of its content. \<open>chain_ok\<close> says that every line passes, the
  expected predecessor hash being \<open>expected\<close> for the first line and the recomputed
  digest of the line before for every other line.
\<close>

definition line_ok ::
  "(string \<Rightarrow> string) \<Rightarrow> ('f json \<Rightarrow> string) \<Rightarrow> string \<Rightarrow> 'f line \<Rightarrow> bool" where
  "line_ok sha256 dumps expected line =
     (case json_loads line of
        Some (JDict d) \<Rightarrow>
          fmlookup d ''prev_hash'' = Some (JStr expected) \<and>
          fmlookup d ''hash'' = Some (JStr (calculate_hash sha256 dumps d))
      | _ \<Rightarrow> False)"

definition digest_of ::
  "(string \<Rightarrow> string) \<Rightarrow> ('f json \<Rightarrow> string) \<Rightarrow> string \<Rightarrow> 'f line \<Rightarrow> string" where
  "digest_of sha256 dumps expected line =
     (case json_loads line of
        Some (JDict d) \<Rightarrow> calculate_hash sha256 dumps d
      | _ \<Rightarrow> expected)"

fun chain_ok ::
  "(string \<Rightarrow> string) \<Rightarrow> ('f json \<Rightarrow> string) \<Rightarrow> string \<Rightarrow> 'f line list \<Rightarrow> bool" where
  "chain_ok sha256 dumps expected [] = True"
| "chain_ok sha256 dumps expected (line # rest) =
     (line_ok sha256 dumps expected line \<and>
      chain_ok sha256 dumps (digest_of sha256 dumps expected line) rest)"

text \<open>The expected predecessor hash after a run of lines.\<close>

fun tail_digest ::
  "(string \<Rightarrow> string) \<Rightarrow> ('f json \<Rightarrow> string) \<Rightarrow> string \<Rightarrow> 'f line list \<Rightarrow> string" where
  "tail_digest sha256 dumps expected [] = expected"
| "tail_digest sha256 dumps expected (line # rest) =
     tail_digest sha256 dumps (digest_of sha256 dumps expected line) rest"

definition lines_of :: "'f log_file \<Rightarrow> 'f line list" where
  "lines_of log = (case log of None \<Rightarrow> [] | Some ls \<Rightarrow> ls)"


section \<open>Stand-ins for the library functions, for concrete logs\<close>

text \<open>
  Small executable functions that take the place of \<^verbatim>\<open>hashlib.sha256\<close>, \<^verbatim>\<open>json.dumps\<close>,
  the floats and the markup reader of the console where a definition is evaluated on
  a concrete log. The text produced for a dict lists its record fields that hold a
  string or a number in the order of their sorted names, a number by its kind
  (\<^verbatim>\<open>json.dumps\<close> writes \<^verbatim>\<open>1\<close> for the integer and \<^verbatim>\<open>1.0\<close> for the float). The type of
  floats of the examples is \<open>unit\<close>: its only float stands for \<^verbatim>\<open>1.0\<close>.
\<close>

definition sha_stub :: "string \<Rightarrow> string" where
  "sha_stub s = ''sha256:'' @ s"

definition dumps_stub :: "'f json \<Rightarrow> string" where
  "dumps_stub v =
     (case v of
        JDict d \<Rightarrow>
          concat (map (\<lambda>k. case fmlookup d k of
                              Some (JStr s) \<Rightarrow> k @ '': '' @ s @ '', ''
                            | Some (JInt n) \<Rightarrow> k @ '': int, ''
                            | Some (JFloat x) \<Rightarrow> k @ '': float, ''
                            | _ \<Rightarrow> [])
                    [''confidence'', ''decision_id'', ''hash'', ''model'', ''output'',
                     ''prev_hash'', ''prompt'', ''timestamp''])
      | _ \<Rightarrow> [])"

definition float_stub :: "unit float_ops" where
  "float_stub = \<lparr>py_float = (\<lambda>n. ()), py_bool = (\<lambda>x. True), py_str = (\<lambda>x. ''1.0'')\<rparr>"

text \<open>
  The markup reader: a text in square brackets is a tag, a tag that starts with a
  slash closes the nearest open tag of its name (the nearest open tag when it has no
  name), and a closing tag that finds no such tag is the error.
\<close>

fun close_tag :: "string \<Rightarrow> string list \<Rightarrow> string list option" where
  "close_tag name [] = None"
| "close_tag name (t # stack) =
     (if name = [] \<or> name = t then Some stack
      else map_option (\<lambda>s. t # s) (close_tag name stack))"

fun markup_scan :: "string list \<Rightarrow> string option \<Rightarrow> string \<Rightarrow> bool" where
  "markup_scan stack tag [] = True"
| "markup_scan stack None (c # cs) =
     (if c = CHR ''['' then markup_scan stack (Some []) cs else markup_scan stack None cs)"
| "markup_scan stack (Some t) (c # cs) =
     (if c = CHR ''['' then markup_scan stack (Some []) cs
      else if c = CHR '']'' then
        (case t of
           [] \<Rightarrow> markup_scan stack None cs
         | x # name \<Rightarrow>
             (if x = CHR ''/''
              then (case close_tag name stack of
                      None \<Rightarrow> False
                    | Some stack' \<Rightarrow> markup_scan stack' None cs)
              else markup_scan (t # stack) None cs))
      else markup_scan stack (Some (t @ [c])) cs)"

definition markup_stub :: "string \<Rightarrow> bool" where
  "markup_stub s = markup_scan [] None s"

text \<open>
  The validation of \<^verbatim>\<open>DecisionRecord.parse_obj\<close> on the example logs: the construction
  of the record, \<open>None\<close> where it raises.
\<close>

definition schema_parse_obj :: "unit dict \<Rightarrow> unit DecisionRecord option" where
  "schema_parse_obj d =
     (case DecisionRecord_init float_stub ''generated-id'' ''generated-time'' d of
        Inl e \<Rightarrow> None
      | Inr record \<Rightarrow> Some record)"

definition decision_1 :: "unit candidate" where
  "decision_1 =
     \<lparr>arg_model = JStr ''m1'', arg_config = JDict (fmap_of_list [(''temp'', JInt 1)]),
      arg_prompt = JStr ''p1'', arg_context_sources = JList [JStr ''c1''],
      arg_output = JStr ''o1'', arg_confidence = JNull, arg_risk_flags = JNull,
      new_id = ''id-1'', now = ''2024-01-01T00:00:00''\<rparr>"

definition decision_2 :: "unit candidate" where
  "decision_2 =
     \<lparr>arg_model = JStr ''m2'', arg_config = JDict (fmap_of_list [(''temp'', JInt 2)]),
      arg_prompt = JStr ''p2'', arg_context_sources = JList [JStr ''c2''],
      arg_output = JStr ''o2'', arg_confidence = JNull, arg_risk_flags = JList [JStr ''pii''],
      new_id = ''id-2'', now = ''2024-01-01T00:00:01''\<rparr>"

text \<open>The record that logging \<open>decision_1\<close> into a missing or empty log file returns.\<close>

definition hash_1 :: string where
  "hash_1 = ''sha256:decision_id: id-1, model: m1, output: o1, prev_hash: sha256:genesis_block, prompt: p1, timestamp: 2024-01-01T00:00:00, ''"

definition record_1 :: "unit DecisionRecord" where
  "record_1 =
     \<lparr>decision_id = ''id-1'', timestamp = ''2024-01-01T00:00:00'', model = ''m1'',
      config = fmap_of_list [(''temp'', JInt 1)], prompt = ''p1'',
      context_sources = [''c1''], output' = ''o1'', confidence = None, risk_flags = [],
      prev_hash = ''sha256:genesis_block'', hash = hash_1\<rparr>"

text \<open>The record that logging \<open>decision_2\<close> next returns, and the log file of the two.\<close>

definition hash_2 :: string where
  "hash_2 = ''sha256:decision_id: id-2, model: m2, output: o2, prev_hash: '' @ hash_1
            @ '', prompt: p2, timestamp: 2024-01-01T00:00:01, ''"

definition record_2 :: "unit DecisionRecord" where
  "record_2 =
     \<lparr>decision_id = ''id-2'', timestamp = ''2024-01-01T00:00:01'', model = ''m2'',
      config = fmap_of_list [(''temp'', JInt 2)], prompt = ''p2'',
      context_sources = [''c2''], output' = ''o2'', confidence = None,
      risk_flags = [''pii''], prev_hash = hash_1, hash = hash_2\<rparr>"

definition log_2 :: "unit log_file" where
  "log_2 = Some [Json (JDict (record_dict record_1)), Json (JDict (record_dict record_2))]"

text \<open>
  A decision whose confidence is the integer \<^verbatim>\<open>1\<close>, as the input file
  \<^verbatim>\<open>{..., "confidence": 1}\<close> of the command \<^verbatim>\<open>log\<close> gives it, and the record that logging
  it into a missing or empty log file returns: the record holds the float, its hash
  is the digest of the data with the integer.
\<close>

definition decision_3 :: "unit candidate" where
  "decision_3 =
     \<lparr>arg_model = JStr ''m3'', arg_config = JDict (fmap_of_list [(''temp'', JInt 3)]),
      arg_prompt = JStr ''p3'', arg_context_sources = JList [JStr ''c3''],
      arg_output = JStr ''o3'', arg_confidence = JInt 1, arg_risk_flags = JNull,
      new_id = ''id-3'', now = ''2024-01-01T00:00:02''\<rparr>"

definition hash_3 :: string where
  "hash_3 = ''sha256:confidence: int, decision_id: id-3, model: m3, output: o3, prev_hash: sha256:genesis_block, prompt: p3, timestamp: 2024-01-01T00:00:02, ''"

definition record_3 :: "unit DecisionRecord" where
  "record_3 =
     \<lparr>decision_id = ''id-3'', timestamp = ''2024-01-01T00:00:02'', model = ''m3'',
      config = fmap_of_list [(''temp'', JInt 3)], prompt = ''p3'',
      context_sources = [''c3''], output' = ''o3'', confidence = Some (), risk_flags = [],
      prev_hash = ''sha256:genesis_block'', hash = hash_3\<rparr>"

section \<open>Auxiliary notions of the claims\<close>


text \<open>
  A line that the loop of \<^verbatim>\<open>replay_decision\<close> passes over: it fails to parse, or it is
  a JSON object whose \<^verbatim>\<open>decision_id\<close> is not the wanted one.
\<close>

definition no_match :: "string \<Rightarrow> 'f line \<Rightarrow> bool" where
  "no_match wanted_id line =
     (case json_loads line of
        None \<Rightarrow> True
      | Some (JDict record_data) \<Rightarrow> fmlookup record_data ''decision_id'' \<noteq> Some (JStr wanted_id)
      | Some _ \<Rightarrow> False)"

definition is_dict :: "'f json \<Rightarrow> bool" where
  "is_dict v = (case v of JDict d \<Rightarrow> True | _ \<Rightarrow> False)"


text \<open>
  A call whose confidence the schema keeps as it was passed: \<^verbatim>\<open>None\<close> or a float.
\<close>

definition confidence_kept :: "'f candidate \<Rightarrow> bool" where
  "confidence_kept c = (case arg_confidence c of JNull \<Rightarrow> True | JFloat x \<Rightarrow> True | _ \<Rightarrow> False)"

text \<open>An input mapping for the command \<^verbatim>\<open>log\<close> that lacks three required fields.\<close>

definition incomplete_input :: "unit dict" where
  "incomplete_input = fmap_of_list [(''model'', JStr ''m1''), (''prompt'', JStr ''p1'')]"

text \<open>A stored object that carries the identifier of \<open>decision_2\<close> and nothing else.\<close>

definition bare_id_2 :: "unit dict" where
  "bare_id_2 = fmap_of_list [(''decision_id'', JStr ''id-2'')]"

section \<open>Properties\<close>

subsection \<open>Validation\<close>

lemma lines_of_simps [simp]:
  "lines_of None = []" "lines_of (Some ls) = ls"
  by (simp_all add: lines_of_def)

lemma as_str_Some: "as_str v = Some s \<Longrightarrow> v = Some (JStr s)"
  by (auto simp: as_str_def split: option.splits json.splits)

lemma as_dict_Some: "as_dict v = Some d \<Longrightarrow> v = Some (JDict d)"
  by (auto simp: as_dict_def split: option.splits json.splits)

lemma those_as_str:
  "those (map (\<lambda>x. as_str (Some x)) xs) = Some ss \<Longrightarrow> xs = map JStr ss"
proof (induction xs arbitrary: ss)
  case Nil
  then show ?case by simp
next
  case (Cons x xs)
  then show ?case
    by (auto simp: as_str_def split: option.splits json.splits)
qed

lemma as_strs_Some: "as_strs v = Some ss \<Longrightarrow> v = Some (json_of_strs ss)"
  by (auto simp: as_strs_def json_of_strs_def those_as_str split: option.splits json.splits)

lemma or_default_as_str:
  "or_default dflt as_str v = Some s \<Longrightarrow> v = None \<and> s = dflt \<or> v = Some (JStr s)"
  by (auto simp: or_default_def as_str_def split: option.splits json.splits)

lemma or_default_as_strs:
  "or_default dflt as_strs v = Some ss \<Longrightarrow> v = None \<and> ss = dflt \<or> v = Some (json_of_strs ss)"
  by (cases v) (auto simp: or_default_def dest: as_strs_Some)

text \<open>What a successful construction says about the arguments it was given.\<close>

lemma DecisionRecord_init_Inr:
  assumes "DecisionRecord_init fl i t d = Inr r"
  shows "or_default i as_str (fmlookup d ''decision_id'') = Some (decision_id r)"
    and "or_default t as_str (fmlookup d ''timestamp'') = Some (timestamp r)"
    and "fmlookup d ''model'' = Some (JStr (model r))"
    and "fmlookup d ''config'' = Some (JDict (config r))"
    and "fmlookup d ''prompt'' = Some (JStr (prompt r))"
    and "fmlookup d ''context_sources'' = Some (json_of_strs (context_sources r))"
    and "fmlookup d ''output'' = Some (JStr (output' r))"
    and "as_confidence fl (fmlookup d ''confidence'') = Some (confidence r)"
    and "or_default [] as_strs (fmlookup d ''risk_flags'') = Some (risk_flags r)"
    and "fmlookup d ''prev_hash'' = Some (JStr (prev_hash r))"
    and "fmlookup d ''hash'' = Some (JStr (hash r))"
  using assms
  by (auto simp: DecisionRecord_init_def bind_eq_Some_conv
           dest: as_str_Some as_dict_Some as_strs_Some split: option.splits)

lemma as_confidence_kept:
  assumes "as_confidence fl (Some v) = Some conf"
  shows "v = JNull \<or> (\<exists>x. v = JFloat x) \<Longrightarrow> json_of_confidence conf = v"
    and "v = JInt n \<Longrightarrow> conf = Some (py_float fl n)"
  using assms by (auto simp: as_confidence_def json_of_confidence_def)

subsection \<open>Appending\<close>

lemma partial_data_lookup:
  "fmlookup (partial_data_of fl c prev) ''decision_id'' = None"
  "fmlookup (partial_data_of fl c prev) ''timestamp'' = None"
  "fmlookup (partial_data_of fl c prev) ''hash'' = None"
  "fmlookup (partial_data_of fl c prev) ''model'' = Some (arg_model c)"
  "fmlookup (partial_data_of fl c prev) ''config'' = Some (arg_config c)"
  "fmlookup (partial_data_of fl c prev) ''prompt'' = Some (arg_prompt c)"
  "fmlookup (partial_data_of fl c prev) ''context_sources'' = Some (arg_context_sources c)"
  "fmlookup (partial_data_of fl c prev) ''output'' = Some (arg_output c)"
  "fmlookup (partial_data_of fl c prev) ''confidence'' = Some (arg_confidence c)"
  "fmlookup (partial_data_of fl c prev) ''prev_hash'' = Some prev"
  by (simp_all add: partial_data_of_def Let_def)

lemma partial_data_risk_flags:
  "\<exists>v. fmlookup (partial_data_of fl c prev) ''risk_flags'' = Some v"
  by (simp add: partial_data_of_def Let_def)

lemma partial_data_dom:
  "k \<notin> {''model'', ''config'', ''prompt'', ''context_sources'', ''output'', ''confidence'',
         ''risk_flags'', ''prev_hash''} \<Longrightarrow>
   fmlookup (partial_data_of fl c prev) k = None"
  by (auto simp: partial_data_of_def Let_def)

text \<open>
  A call of \<^verbatim>\<open>log_decision\<close> that returns has read a string as the tail hash, has
  generated the identifier and the time, has computed the hash over the data with the
  arguments as they were passed, and has built the record it returns from that data
  and the hash.
\<close>

lemma log_decision_Inr:
  assumes "log_decision fl sha dumps c lf = Inr (r, lf')"
  shows "get_last_hash sha lf = Inr (JStr (prev_hash r))"
    and "hash r = calculate_hash sha dumps (data_for_hashing fl c (JStr (prev_hash r)))"
    and "DecisionRecord_init fl (new_id c) (now c)
           (fmupd ''hash'' (JStr (hash r)) (data_for_hashing fl c (JStr (prev_hash r)))) = Inr r"
    and "lf' = Some (lines_of lf @ [Json (JDict (record_dict r))])"
proof -
  from assms obtain prev temp where
    g: "get_last_hash sha lf = Inr prev" and
    t: "DecisionRecord_init fl (new_id c) (now c)
          (fmupd ''hash'' (JStr ''dummy_hash'') (partial_data_of fl c prev)) = Inr temp" and
    f: "DecisionRecord_init fl (new_id c) (now c)
          (fmupd ''hash''
             (JStr (calculate_hash sha dumps
                (fmupd ''timestamp'' (JStr (timestamp temp))
                  (fmupd ''decision_id'' (JStr (decision_id temp)) (partial_data_of fl c prev)))))
             (fmupd ''timestamp'' (JStr (timestamp temp))
               (fmupd ''decision_id'' (JStr (decision_id temp)) (partial_data_of fl c prev))))
         = Inr r" and
    l: "lf' = Some (lines_of lf @ [Json (JDict (record_dict r))])"
    by (auto simp: log_decision_def Let_def lines_of_def split: sum.splits)
  from DecisionRecord_init_Inr(1,2) [OF t]
  have i: "decision_id temp = new_id c" "timestamp temp = now c"
    by (simp_all add: partial_data_lookup or_default_def)
  from DecisionRecord_init_Inr(10) [OF f]
  have p: "prev = JStr (prev_hash r)"
    by (simp add: partial_data_lookup)
  from DecisionRecord_init_Inr(11) [OF f]
  have h: "hash r = calculate_hash sha dumps (data_for_hashing fl c (JStr (prev_hash r)))"
    by (simp add: i p data_for_hashing_def)
  show "get_last_hash sha lf = Inr (JStr (prev_hash r))" using g p by simp
  show "hash r = calculate_hash sha dumps (data_for_hashing fl c (JStr (prev_hash r)))"
    by (rule h)
  show "DecisionRecord_init fl (new_id c) (now c)
           (fmupd ''hash'' (JStr (hash r)) (data_for_hashing fl c (JStr (prev_hash r)))) = Inr r"
    using f by (simp add: i p h data_for_hashing_def)
  show "lf' = Some (lines_of lf @ [Json (JDict (record_dict r))])" by (rule l)
qed

text \<open>
  The data that is hashed is the JSON form of the returned record without its hash,
  but for the confidence: the data holds the argument as it was passed, the record
  the validated value.
\<close>

lemma data_for_hashing_record:
  assumes "log_decision fl sha dumps c lf = Inr (r, lf')"
  shows "fmdrop ''hash'' (data_for_hashing fl c (JStr (prev_hash r)))
         = fmdrop ''hash'' (fmupd ''confidence'' (arg_confidence c) (record_dict r))"
proof (rule fmap_ext)
  fix k
  let ?h = "data_for_hashing fl c (JStr (prev_hash r))"
  let ?p = "partial_data_of fl c (JStr (prev_hash r))"
  note v = DecisionRecord_init_Inr [OF log_decision_Inr(3) [OF assms]]
  have look: "\<And>key. key \<noteq> ''timestamp'' \<Longrightarrow> key \<noteq> ''decision_id'' \<Longrightarrow>
                fmlookup ?h key = fmlookup ?p key"
    by (simp add: data_for_hashing_def)
  have m: "fmlookup ?h ''model'' = Some (JStr (model r))"
    using v(3) by simp
  have cf: "fmlookup ?h ''config'' = Some (JDict (config r))"
    using v(4) by simp
  have pr: "fmlookup ?h ''prompt'' = Some (JStr (prompt r))"
    using v(5) by simp
  have cs: "fmlookup ?h ''context_sources'' = Some (json_of_strs (context_sources r))"
    using v(6) by simp
  have ou: "fmlookup ?h ''output'' = Some (JStr (output' r))"
    using v(7) by simp
  have ph: "fmlookup ?h ''prev_hash'' = Some (JStr (prev_hash r))"
    using v(10) by simp
  have co: "fmlookup ?h ''confidence'' = Some (arg_confidence c)"
    by (simp add: look partial_data_lookup)
  have "fmlookup ?h ''risk_flags'' \<noteq> None"
    using partial_data_risk_flags [of fl c "JStr (prev_hash r)"] by (auto simp: look)
  then have rf: "fmlookup ?h ''risk_flags'' = Some (json_of_strs (risk_flags r))"
    using or_default_as_strs [OF v(9)] by auto
  have di: "fmlookup ?h ''decision_id'' = Some (JStr (decision_id r))"
    using or_default_as_str [OF v(1)] by (auto simp: data_for_hashing_def)
  have ti: "fmlookup ?h ''timestamp'' = Some (JStr (timestamp r))"
    using or_default_as_str [OF v(2)] by (auto simp: data_for_hashing_def)
  have other: "fmlookup ?h k = None"
    if "k \<noteq> ''model''" "k \<noteq> ''config''" "k \<noteq> ''prompt''" "k \<noteq> ''context_sources''"
       "k \<noteq> ''output''" "k \<noteq> ''confidence''" "k \<noteq> ''risk_flags''" "k \<noteq> ''prev_hash''"
       "k \<noteq> ''decision_id''" "k \<noteq> ''timestamp''"
    using that partial_data_dom [of k fl c "JStr (prev_hash r)"] by (simp add: look)
  have rd: "fmlookup (record_dict r) k =
        (if k = ''decision_id'' then Some (JStr (decision_id r))
         else if k = ''timestamp'' then Some (JStr (timestamp r))
         else if k = ''model'' then Some (JStr (model r))
         else if k = ''config'' then Some (JDict (config r))
         else if k = ''prompt'' then Some (JStr (prompt r))
         else if k = ''context_sources'' then Some (json_of_strs (context_sources r))
         else if k = ''output'' then Some (JStr (output' r))
         else if k = ''confidence'' then Some (json_of_confidence (confidence r))
         else if k = ''risk_flags'' then Some (json_of_strs (risk_flags r))
         else if k = ''prev_hash'' then Some (JStr (prev_hash r))
         else if k = ''hash'' then Some (JStr (hash r))
         else None)"
    by (simp add: record_dict_def)
  show "fmlookup (fmdrop ''hash'' ?h) k
        = fmlookup (fmdrop ''hash'' (fmupd ''confidence'' (arg_confidence c) (record_dict r))) k"
  proof (cases "k = ''hash''")
    case True
    then show ?thesis by simp
  next
    case False
    then have "fmlookup (fmdrop ''hash'' ?h) k = fmlookup ?h k" by simp
    also have "\<dots> = (if k = ''confidence'' then Some (arg_confidence c)
                       else fmlookup (record_dict r) k)"
      using m cf pr cs ou ph co rf di ti other False unfolding rd by presburger
    also have "\<dots> = fmlookup (fmdrop ''hash'' (fmupd ''confidence'' (arg_confidence c) (record_dict r))) k"
      using False by simp
    finally show ?thesis .
  qed
qed

lemma append_hash:
  assumes "log_decision fl sha dumps c lf = Inr (r, lf')"
  shows "hash r = calculate_hash sha dumps (fmupd ''confidence'' (arg_confidence c) (record_dict r))"
  using log_decision_Inr(2) [OF assms] data_for_hashing_record [OF assms]
  by (simp add: calculate_hash_def)

lemma append_confidence:
  assumes "log_decision fl sha dumps c lf = Inr (r, lf')"
  shows "as_confidence fl (Some (arg_confidence c)) = Some (confidence r)"
  using DecisionRecord_init_Inr(8) [OF log_decision_Inr(3) [OF assms]]
  by (simp add: data_for_hashing_def partial_data_lookup)

lemma fmupd_same: "fmlookup m k = Some v \<Longrightarrow> fmupd k v m = m"
  by (rule fmap_ext) auto

lemma fmupd_confidence_record_dict:
  "fmupd ''confidence'' (json_of_confidence (confidence r)) (record_dict r) = record_dict r"
  by (rule fmupd_same) (simp add: record_dict_def)

text \<open>
  Where the confidence is passed as a float or as \<^verbatim>\<open>None\<close>, the validated value is the
  value passed, and the hash of the returned record is the digest of its content.
\<close>

lemma append_hash_kept_confidence:
  assumes "log_decision fl sha dumps c lf = Inr (r, lf')"
      and "arg_confidence c = JNull \<or> (\<exists>x. arg_confidence c = JFloat x)"
  shows "hash r = calculate_hash sha dumps (record_dict r)"
proof -
  from as_confidence_kept(1) [OF append_confidence [OF assms(1)] assms(2)]
  have "json_of_confidence (confidence r) = arg_confidence c" .
  then have "fmupd ''confidence'' (arg_confidence c) (record_dict r) = record_dict r"
    using fmupd_confidence_record_dict [of r] by simp
  with append_hash [OF assms(1)] show ?thesis by simp
qed

lemma log_decision_decision_3:
  "log_decision float_stub sha_stub dumps_stub decision_3 None =
     Inr (record_3, Some [Json (JDict (record_dict record_3))])"
  by code_simp

lemma digests_of_record_3:
  "calculate_hash sha_stub dumps_stub (fmupd ''confidence'' (JInt 1) (record_dict record_3))
   \<noteq> calculate_hash sha_stub dumps_stub (record_dict record_3)"
  by code_simp

text \<open>
  Claim C2 says that for every valid input the hash of the record that the append
  returns is the digest of the canonical form of the record's fields without the
  hash. The code computes the hash over the arguments as they were passed and then
  builds the record from the validated values. For a confidence passed as the
  integer \<open>n\<close> the record holds the float \<^verbatim>\<open>float(n)\<close>, and its hash is the digest of
  the content with the integer in the place of the float: it is not the digest of
  the record's own content wherever the digest tells the two apart.
\<close>

theorem hash_of_integer_confidence_is_not_record_digest:
  assumes "log_decision fl sha dumps c lf = Inr (r, lf')"
      and "arg_confidence c = JInt n"
      and "calculate_hash sha dumps (fmupd ''confidence'' (JInt n) (record_dict r))
           \<noteq> calculate_hash sha dumps (record_dict r)"
  shows "fmlookup (record_dict r) ''confidence'' = Some (JFloat (py_float fl n))
       \<and> hash r = calculate_hash sha dumps (fmupd ''confidence'' (JInt n) (record_dict r))
       \<and> hash r \<noteq> calculate_hash sha dumps (record_dict r)"
proof -
  from as_confidence_kept(2) [OF append_confidence [OF assms(1)] assms(2)]
  have "confidence r = Some (py_float fl n)" .
  then have a: "fmlookup (record_dict r) ''confidence'' = Some (JFloat (py_float fl n))"
    by (simp add: record_dict_def json_of_confidence_def)
  from append_hash [OF assms(1)] assms(2)
  have b: "hash r = calculate_hash sha dumps (fmupd ''confidence'' (JInt n) (record_dict r))"
    by simp
  from a b assms(3) show ?thesis by simp
qed

theorem hash_of_integer_confidence_is_not_record_digest_witness:
  "log_decision float_stub sha_stub dumps_stub decision_3 None =
     Inr (record_3, Some [Json (JDict (record_dict record_3))])
   \<and> arg_confidence decision_3 = JInt 1
   \<and> hash record_3 = hash_3
   \<and> calculate_hash sha_stub dumps_stub (record_dict record_3) \<noteq> hash_3
   \<and> hash record_3 \<noteq> calculate_hash sha_stub dumps_stub (record_dict record_3)"
proof -
  have c: "arg_confidence decision_3 = JInt 1"
    by (simp add: decision_3_def)
  have h: "hash record_3 = hash_3"
    by (simp add: record_3_def)
  from hash_of_integer_confidence_is_not_record_digest
         [OF log_decision_decision_3 c digests_of_record_3]
  have "hash record_3 \<noteq> calculate_hash sha_stub dumps_stub (record_dict record_3)"
    by blast
  moreover from this h have "calculate_hash sha_stub dumps_stub (record_dict record_3) \<noteq> hash_3"
    by simp
  ultimately show ?thesis using c h log_decision_decision_3 by blast
qed

subsection \<open>Verifying\<close>

lemma verify_line_ok:
  assumes "line_ok H D (previous_hash st) l"
  shows "verify_line H D i l st = Inr (st\<lparr>previous_hash := digest_of H D (previous_hash st) l\<rparr>)"
  using assms
  by (auto simp: line_ok_def verify_line_def digest_of_def Let_def
           split: option.splits json.splits)

lemma verify_line_dict:
  assumes "fmlookup d ''prev_hash'' = Some p" "fmlookup d ''hash'' = Some h"
  shows "verify_line sha dumps i (Json (JDict d)) st =
     Inr ((if h \<noteq> JStr (calculate_hash sha dumps d)
           then report (TamperError (i + 1))
                  (if p \<noteq> JStr (previous_hash st) then report (ChainLinkError (i + 1)) st else st)
           else (if p \<noteq> JStr (previous_hash st) then report (ChainLinkError (i + 1)) st else st))
          \<lparr>previous_hash := calculate_hash sha dumps d\<rparr>)"
  using assms by (simp add: verify_line_def Let_def)

lemma verify_lines_chain_ok:
  "chain_ok H D (previous_hash st) ls \<Longrightarrow>
   verify_lines H D i ls st = Inr (st\<lparr>previous_hash := tail_digest H D (previous_hash st) ls\<rparr>)"
proof (induction ls arbitrary: i st)
  case Nil
  then show ?case by simp
next
  case (Cons l ls)
  then show ?case by (simp add: verify_line_ok)
qed

lemma verify_line_valid:
  assumes "verify_line H D i l st = Inr st'" and "is_valid st'"
  shows "is_valid st \<and> line_ok H D (previous_hash st) l \<and>
         previous_hash st' = digest_of H D (previous_hash st) l \<and> printed st' = printed st"
  using assms
  by (auto simp: line_ok_def verify_line_def digest_of_def Let_def report_def
           split: option.splits json.splits if_splits)

lemma verify_lines_valid:
  "verify_lines H D i ls st = Inr st' \<Longrightarrow> is_valid st' \<Longrightarrow>
   is_valid st \<and> chain_ok H D (previous_hash st) ls \<and> printed st' = printed st"
proof (induction ls arbitrary: i st)
  case Nil
  then show ?case by simp
next
  case (Cons l ls)
  from Cons.prems(1) obtain st1 where
    s1: "verify_line H D i l st = Inr st1" and s2: "verify_lines H D (i + 1) ls st1 = Inr st'"
    by (auto split: sum.splits)
  from Cons.IH [OF s2 Cons.prems(2)] have
    v1: "is_valid st1" and c1: "chain_ok H D (previous_hash st1) ls" and p1: "printed st' = printed st1"
    by simp_all
  from verify_line_valid [OF s1 v1] c1 p1 show ?case by simp
qed

lemma verify_chain_chain_ok:
  assumes "chain_ok H D (genesis_hash H) (lines_of lf)"
  shows "verify_chain H D lf = Inr ([], True)"
proof (cases lf)
  case None
  then show ?thesis by (simp add: verify_chain_def)
next
  case (Some ls)
  show ?thesis
  proof (cases ls)
    case Nil
    with Some show ?thesis by (simp add: verify_chain_def)
  next
    case (Cons l rest)
    let ?st = "\<lparr>previous_hash = genesis_hash H, is_valid = True, printed = []\<rparr>"
    have "chain_ok H D (previous_hash ?st) (l # rest)"
      using assms Some Cons by (simp add: lines_of_def)
    from verify_lines_chain_ok [OF this, of 0]
    show ?thesis using Some Cons by (simp add: verify_chain_def)
  qed
qed

lemma verify_chain_valid:
  assumes "verify_chain H D lf = Inr (fs, True)"
  shows "chain_ok H D (genesis_hash H) (lines_of lf) \<and> fs = []"
proof (cases lf)
  case None
  then show ?thesis using assms by (simp add: verify_chain_def lines_of_def)
next
  case (Some ls)
  show ?thesis
  proof (cases ls)
    case Nil
    with Some show ?thesis using assms by (simp add: verify_chain_def lines_of_def)
  next
    case (Cons l rest)
    let ?st = "\<lparr>previous_hash = genesis_hash H, is_valid = True, printed = []\<rparr>"
    from assms Some Cons obtain st' where
      r: "verify_lines H D 0 (l # rest) ?st = Inr st'" and v: "is_valid st'" and f: "printed st' = fs"
      by (auto simp: verify_chain_def split: sum.splits)
    from verify_lines_valid [OF r v] f show ?thesis
      using Some Cons by (simp add: lines_of_def)
  qed
qed

lemma chain_ok_record_1:
  "chain_ok sha_stub dumps_stub (genesis_hash sha_stub) [Json (JDict (record_dict record_1))]"
  by code_simp

text \<open>
  Claim C3. The overall result of the verifier is the conjunction of the per-line
  checks: \<^verbatim>\<open>verify_chain\<close> returns valid if and only if every line of the log parses as a
  record, has the expected predecessor hash as its \<^verbatim>\<open>prev_hash\<close>, and stores as
  \<^verbatim>\<open>hash\<close> the recomputed digest of its content; then it has printed no finding. For a
  missing or empty log file it returns valid with no finding.
\<close>

theorem verify_valid_iff_all_checks_pass:
  "(verify_chain sha256 dumps lf = Inr ([], True))
     = chain_ok sha256 dumps (genesis_hash sha256) (lines_of lf)
   \<and> (\<exists>fs. verify_chain sha256 dumps lf = Inr (fs, True))
     = chain_ok sha256 dumps (genesis_hash sha256) (lines_of lf)
   \<and> verify_chain sha256 dumps None = Inr ([], True)
   \<and> verify_chain sha256 dumps (Some []) = Inr ([], True)"
  using verify_chain_chain_ok [of sha256 dumps lf] verify_chain_valid [of sha256 dumps lf]
  by (auto simp: verify_chain_def)

theorem verify_valid_iff_all_checks_pass_witness:
  "verify_chain sha_stub dumps_stub (Some [Json (JDict (record_dict record_1))]) = Inr ([], True)
   \<and> chain_ok sha_stub dumps_stub (genesis_hash sha_stub) [Json (JDict (record_dict record_1))]
   \<and> \<not> chain_ok sha_stub dumps_stub (genesis_hash sha_stub) [NotJson ''{'' :: unit line]
   \<and> verify_chain sha_stub dumps_stub (Some [NotJson ''{'' :: unit line]) \<noteq> Inr ([], True)"
proof -
  have b: "\<not> chain_ok sha_stub dumps_stub (genesis_hash sha_stub) [NotJson ''{'' :: unit line]"
    by (simp add: line_ok_def)
  note t1 = verify_valid_iff_all_checks_pass
      [of sha_stub dumps_stub "Some [Json (JDict (record_dict record_1))]",
       unfolded lines_of_simps]
  note t2 = verify_valid_iff_all_checks_pass
      [of sha_stub dumps_stub "Some [NotJson ''{'' :: unit line]", unfolded lines_of_simps]
  from t1 t2 b chain_ok_record_1 show ?thesis by blast
qed

subsection \<open>Logs built by appending\<close>

lemma chain_ok_append:
  "chain_ok H D e (xs @ ys) = (chain_ok H D e xs \<and> chain_ok H D (tail_digest H D e xs) ys)"
  by (induction xs arbitrary: e) auto

lemma tail_digest_append:
  "tail_digest H D e (xs @ ys) = tail_digest H D (tail_digest H D e xs) ys"
  by (induction xs arbitrary: e) auto

lemma get_last_hash_nonempty:
  "ls \<noteq> [] \<Longrightarrow> get_last_hash H (Some ls) =
     (case json_loads (last ls) of
        None \<Rightarrow> Inr (JStr (genesis_hash H))
      | Some (JDict last_record) \<Rightarrow>
          (case fmlookup last_record ''hash'' of
             None \<Rightarrow> Inr (JStr (genesis_hash H))
           | Some h \<Rightarrow> Inr h)
      | Some _ \<Rightarrow> Inl AttributeError)"
  by (cases ls) (simp_all add: get_last_hash_def)

lemma get_last_hash_chain_ok:
  assumes "chain_ok H D (genesis_hash H) (lines_of lf)"
  shows "get_last_hash H lf = Inr (JStr (tail_digest H D (genesis_hash H) (lines_of lf)))"
proof (cases "lines_of lf = []")
  case True
  then show ?thesis by (cases lf) (auto simp: lines_of_def get_last_hash_def)
next
  case False
  then obtain xs l where ls: "lines_of lf = xs @ [l]"
    by (metis rev_exhaust)
  then have lf: "lf = Some (xs @ [l])"
    by (cases lf) (auto simp: lines_of_def)
  from assms ls have "line_ok H D (tail_digest H D (genesis_hash H) xs) l"
    by (simp add: chain_ok_append)
  then show ?thesis
    unfolding lf
    by (auto simp: get_last_hash_nonempty lines_of_def tail_digest_append line_ok_def digest_of_def
             split: option.splits json.splits)
qed

text \<open>
  A successful append to a log that is a valid chain keeps it one where the schema
  keeps the confidence as it was passed, so a log built by such appends alone is
  accepted by the verifier.
\<close>

lemma confidence_kept_iff:
  "confidence_kept c = (arg_confidence c = JNull \<or> (\<exists>x. arg_confidence c = JFloat x))"
  by (auto simp: confidence_kept_def split: json.splits)

lemma log_decision_chain_ok:
  assumes "chain_ok H D (genesis_hash H) (lines_of lf)"
      and "log_decision fl H D c lf = Inr (r, lf')"
      and "confidence_kept c"
  shows "chain_ok H D (genesis_hash H) (lines_of lf')"
    and "length (lines_of lf') = length (lines_of lf) + 1"
proof -
  from get_last_hash_chain_ok [OF assms(1)] log_decision_Inr(1) [OF assms(2)]
  have p: "prev_hash r = tail_digest H D (genesis_hash H) (lines_of lf)"
    by simp
  from append_hash_kept_confidence [OF assms(2)] assms(3)
  have h: "hash r = calculate_hash H D (record_dict r)"
    by (simp add: confidence_kept_iff)
  have "line_ok H D (prev_hash r) (Json (JDict (record_dict r)))"
    unfolding line_ok_def using h by (simp add: record_dict_def)
  with assms(1) p show "chain_ok H D (genesis_hash H) (lines_of lf')"
    by (simp add: log_decision_Inr(4) [OF assms(2)] chain_ok_append)
  show "length (lines_of lf') = length (lines_of lf) + 1"
    by (simp add: log_decision_Inr(4) [OF assms(2)])
qed

lemma log_all_chain_ok:
  "chain_ok H D (genesis_hash H) (lines_of lf) \<Longrightarrow> log_all fl H D cs lf = Inr lf' \<Longrightarrow>
   list_all confidence_kept cs \<Longrightarrow>
   chain_ok H D (genesis_hash H) (lines_of lf')
   \<and> length (lines_of lf') = length (lines_of lf) + length cs"
proof (induction cs arbitrary: lf)
  case Nil
  then show ?case by simp
next
  case (Cons c cs)
  from Cons.prems(2) obtain r lf1 where
    a: "log_decision fl H D c lf = Inr (r, lf1)" and b: "log_all fl H D cs lf1 = Inr lf'"
    by (auto split: sum.splits)
  from Cons.prems(3) have k: "confidence_kept c" "list_all confidence_kept cs"
    by simp_all
  from log_decision_chain_ok [OF Cons.prems(1) a k(1)] Cons.IH [OF _ b k(2)]
  show ?case by simp
qed

lemma appends_with_kept_confidence_verify:
  assumes "lf = None \<or> lf = Some []"
      and "log_all fl sha dumps cs lf = Inr lf'"
      and "list_all confidence_kept cs"
  shows "length (lines_of lf') = length cs \<and> verify_chain sha dumps lf' = Inr ([], True)"
proof -
  have e: "lines_of lf = []" using assms(1) by auto
  then have "chain_ok sha dumps (genesis_hash sha) (lines_of lf)" by simp
  from log_all_chain_ok [OF this assms(2,3)] e verify_chain_chain_ok [of sha dumps lf']
  show ?thesis by simp
qed

lemma log_all_decisions:
  "log_all float_stub sha_stub dumps_stub [decision_1, decision_2] None = Inr log_2"
  by code_simp

text \<open>
  Claim C1 says that the verifier accepts every log built by successive successful
  appends to an empty store. The code does not: the hash of an appended record is
  computed over the arguments as they were passed, the line written holds the
  validated values, and the verifier recomputes the digest from the line. One
  successful append with the confidence passed as an integer \<open>n\<close>, to a missing or
  empty log file, leaves a log of one line on which the verifier reports tampering on
  line 1 and returns invalid, wherever the digest tells the integer from the float.
\<close>

theorem append_of_integer_confidence_fails_verification:
  assumes "lf = None \<or> lf = Some []"
      and "log_decision fl sha dumps c lf = Inr (r, lf')"
      and "arg_confidence c = JInt n"
      and "calculate_hash sha dumps (fmupd ''confidence'' (JInt n) (record_dict r))
           \<noteq> calculate_hash sha dumps (record_dict r)"
  shows "log_all fl sha dumps [c] lf = Inr lf'
       \<and> lines_of lf' = [Json (JDict (record_dict r))]
       \<and> verify_chain sha dumps lf' = Inr ([TamperError 1], False)"
proof -
  have e: "lines_of lf = []" using assms(1) by auto
  then have l: "lf' = Some [Json (JDict (record_dict r))]"
    using log_decision_Inr(4) [OF assms(2)] by simp
  have "get_last_hash sha lf = Inr (JStr (genesis_hash sha))"
    using assms(1) by (auto simp: get_last_hash_def)
  with log_decision_Inr(1) [OF assms(2)] have p: "prev_hash r = genesis_hash sha"
    by simp
  from append_hash [OF assms(2)] assms(3,4)
  have h: "hash r \<noteq> calculate_hash sha dumps (record_dict r)"
    by simp
  have lp: "fmlookup (record_dict r) ''prev_hash'' = Some (JStr (prev_hash r))"
    and lh: "fmlookup (record_dict r) ''hash'' = Some (JStr (hash r))"
    by (simp_all add: record_dict_def)
  have "verify_chain sha dumps (Some [Json (JDict (record_dict r))])
          = Inr ([TamperError 1], False)"
    using h p by (simp add: verify_chain_def verify_line_dict [OF lp lh] report_def)
  with l assms(2) show ?thesis by simp
qed

theorem append_of_integer_confidence_fails_verification_witness:
  "((None :: unit log_file) = None \<or> (None :: unit log_file) = Some [])
   \<and> log_all float_stub sha_stub dumps_stub [decision_3] None
       = Inr (Some [Json (JDict (record_dict record_3))])
   \<and> arg_confidence decision_3 = JInt 1
   \<and> verify_chain sha_stub dumps_stub (Some [Json (JDict (record_dict record_3))])
       = Inr ([TamperError 1], False)"
proof -
  have a: "(None :: unit log_file) = None \<or> (None :: unit log_file) = Some []" by simp
  have c: "arg_confidence decision_3 = JInt 1"
    by (simp add: decision_3_def)
  from append_of_integer_confidence_fails_verification
         [OF a log_decision_decision_3 c digests_of_record_3]
  show ?thesis using a c by blast
qed

subsection \<open>Lines that do not parse, and lines that are not records\<close>

lemma verify_chain_lines:
  "verify_chain H D lf =
     (case verify_lines H D 0 (lines_of lf) (initial_state H) of
        Inl e \<Rightarrow> Inl e
      | Inr st \<Rightarrow> Inr (printed st, is_valid st))"
proof (cases lf)
  case None
  then show ?thesis by (simp add: verify_chain_def initial_state_def)
next
  case (Some ls)
  then show ?thesis by (cases ls) (simp_all add: verify_chain_def initial_state_def)
qed

lemma verify_lines_append:
  "verify_lines H D i (xs @ ys) st =
     (case verify_lines H D i xs st of
        Inl e \<Rightarrow> Inl e
      | Inr st' \<Rightarrow> verify_lines H D (i + length xs) ys st')"
  by (induction xs arbitrary: i st) (auto split: sum.splits)

lemma verify_line_printed:
  assumes "verify_line H D i l st = Inr st'"
  shows "\<exists>fs. printed st' = printed st @ fs"
  using assms
  by (auto simp: verify_line_def Let_def report_def split: option.splits json.splits if_splits)

lemma verify_lines_printed:
  "verify_lines H D i ls st = Inr st' \<Longrightarrow> \<exists>fs. printed st' = printed st @ fs"
proof (induction ls arbitrary: i st)
  case Nil
  then show ?case by simp
next
  case (Cons l ls)
  from Cons.prems obtain st1 where
    s1: "verify_line H D i l st = Inr st1" and s2: "verify_lines H D (i + 1) ls st1 = Inr st'"
    by (auto split: sum.splits)
  from verify_line_printed [OF s1] Cons.IH [OF s2] show ?case by auto
qed

lemma verify_line_NotJson:
  "json_loads line = None \<Longrightarrow>
   verify_line H D i line st = Inr (st\<lparr>is_valid := False, printed := printed st @ [DecodeError (i + 1)]\<rparr>)"
  by (simp add: verify_line_def report_def)

lemma chain_ok_log_2:
  "chain_ok sha_stub dumps_stub (genesis_hash sha_stub)
     [Json (JDict (record_dict record_1)), Json (JDict (record_dict record_2))]"
  by code_simp

text \<open>
  Claim C7. When a line fails to parse, the verifier records a decode-error finding
  with the number of that line, marks the overall result invalid and goes on to the
  next line with the expected predecessor hash unchanged: the line is a gap. So a
  run that completes on a log with such a line returns invalid with that finding,
  and a line of garbage put between the lines of a valid chain is the only finding.
\<close>

theorem unparseable_line_is_a_gap:
  assumes "json_loads line = None"
  shows "verify_line sha dumps i line st =
           Inr (st\<lparr>is_valid := False, printed := printed st @ [DecodeError (i + 1)]\<rparr>)
       \<and> verify_lines sha dumps i (line # rest) st =
           verify_lines sha dumps (i + 1) rest
             (st\<lparr>is_valid := False, printed := printed st @ [DecodeError (i + 1)]\<rparr>)
       \<and> previous_hash (st\<lparr>is_valid := False, printed := printed st @ [DecodeError (i + 1)]\<rparr>)
           = previous_hash st
       \<and> (verify_chain sha dumps (Some (pre @ line # post)) = Inr (fs, v) \<longrightarrow>
           \<not> v \<and> DecodeError (length pre + 1) \<in> set fs)
       \<and> (chain_ok sha dumps (genesis_hash sha) (pre @ post) \<longrightarrow>
           verify_chain sha dumps (Some (pre @ line # post))
             = Inr ([DecodeError (length pre + 1)], False))"
proof -
  let ?gap = "\<lambda>st i. st\<lparr>is_valid := False, printed := printed st @ [DecodeError (i + 1)]\<rparr>"
  have l: "verify_line sha dumps i line st = Inr (?gap st i)"
    using assms by (rule verify_line_NotJson)
  then have n: "verify_lines sha dumps i (line # rest) st
                  = verify_lines sha dumps (i + 1) rest (?gap st i)"
    by simp
  have p: "previous_hash (?gap st i) = previous_hash st" by simp
  have g: "verify_chain sha dumps (Some (pre @ line # post)) = Inr (fs, v) \<longrightarrow>
           \<not> v \<and> DecodeError (length pre + 1) \<in> set fs"
  proof
    assume r: "verify_chain sha dumps (Some (pre @ line # post)) = Inr (fs, v)"
    then obtain s1 st' where
      s1: "verify_lines sha dumps 0 pre (initial_state sha) = Inr s1" and
      s2: "verify_lines sha dumps (length pre + 1) post (?gap s1 (length pre)) = Inr st'" and
      f: "fs = printed st'" and v: "v = is_valid st'"
      using assms
      by (auto simp: verify_chain_lines verify_lines_append verify_line_NotJson split: sum.splits)
    from verify_lines_valid [OF s2] have "\<not> is_valid st'" by auto
    moreover from verify_lines_printed [OF s2]
    have "DecodeError (length pre + 1) \<in> set (printed st')"
      by auto
    ultimately show "\<not> v \<and> DecodeError (length pre + 1) \<in> set fs"
      using f v by simp
  qed
  have c: "chain_ok sha dumps (genesis_hash sha) (pre @ post) \<longrightarrow>
           verify_chain sha dumps (Some (pre @ line # post))
             = Inr ([DecodeError (length pre + 1)], False)"
  proof
    assume "chain_ok sha dumps (genesis_hash sha) (pre @ post)"
    then have c1: "chain_ok sha dumps (previous_hash (initial_state sha)) pre"
      and c2: "chain_ok sha dumps (tail_digest sha dumps (genesis_hash sha) pre) post"
      by (simp_all add: chain_ok_append initial_state_def)
    let ?s1 = "(initial_state sha)
                 \<lparr>previous_hash := tail_digest sha dumps (genesis_hash sha) pre\<rparr>"
    have s1: "verify_lines sha dumps 0 pre (initial_state sha) = Inr ?s1"
      using verify_lines_chain_ok [OF c1, of 0] by (simp add: initial_state_def)
    have "chain_ok sha dumps (previous_hash (?gap ?s1 (length pre))) post"
      using c2 by simp
    from verify_lines_chain_ok [OF this, of "length pre + 1"]
    show "verify_chain sha dumps (Some (pre @ line # post))
            = Inr ([DecodeError (length pre + 1)], False)"
      using assms s1
      by (simp add: verify_chain_lines verify_lines_append verify_line_NotJson initial_state_def)
  qed
  from l n p g c show ?thesis by blast
qed

theorem unparseable_line_is_a_gap_witness:
  "json_loads (NotJson ''garbage'' :: unit line) = None
   \<and> chain_ok sha_stub dumps_stub (genesis_hash sha_stub)
       ([Json (JDict (record_dict record_1))] @ [Json (JDict (record_dict record_2))])
   \<and> verify_chain sha_stub dumps_stub
       (Some ([Json (JDict (record_dict record_1))] @ NotJson ''garbage''
              # [Json (JDict (record_dict record_2))]))
       = Inr ([DecodeError 2], False)"
proof -
  have h: "json_loads (NotJson ''garbage'' :: unit line) = None" by simp
  have c: "chain_ok sha_stub dumps_stub (genesis_hash sha_stub)
       ([Json (JDict (record_dict record_1))] @ [Json (JDict (record_dict record_2))])"
    using chain_ok_log_2 by simp
  from unparseable_line_is_a_gap [OF h, where sha = sha_stub and dumps = dumps_stub
      and pre = "[Json (JDict (record_dict record_1))]"
      and post = "[Json (JDict (record_dict record_2))]"] c
  have "verify_chain sha_stub dumps_stub
       (Some ([Json (JDict (record_dict record_1))] @ NotJson ''garbage''
              # [Json (JDict (record_dict record_2))]))
       = Inr ([DecodeError (length [Json (JDict (record_dict record_1))] + 1)], False)"
    by blast
  then show ?thesis using h c by simp
qed

text \<open>
  Claim C6 says that the verifier completes its scan without raising on every log,
  lines that parse as JSON but lack \<^verbatim>\<open>prev_hash\<close> or \<^verbatim>\<open>hash\<close> included. The code raises
  on such a line: \<^verbatim>\<open>record["prev_hash"]\<close> on the JSON object \<^verbatim>\<open>{}\<close> is a \<^verbatim>\<open>KeyError\<close>
  that nothing catches, whatever lines follow, and no result is returned.
\<close>

theorem verify_raises_on_object_without_prev_hash:
  "verify_chain sha256 dumps (Some (Json (JDict fmempty) # rest)) = Inl (KeyError ''prev_hash'')"
  by (simp add: verify_chain_def verify_line_def)

subsection \<open>Tampering with one stored record\<close>

lemma output_tamper_changes_digest:
  "calculate_hash sha_stub dumps_stub (fmupd ''output'' (JStr ''TAMPERED'') (record_dict record_1))
   \<noteq> calculate_hash sha_stub dumps_stub (record_dict record_1)"
  by code_simp

lemma verify_hash_field_tampered: "verify_chain sha_stub dumps_stub
     (Some [Json (JDict (fmupd ''hash'' (JStr ''TAMPERED'') (record_dict record_1))),
            Json (JDict (record_dict record_2))])
   = Inr ([TamperError 1], False)"
  by code_simp

text \<open>
  Claim C4, as amended. After each parsed line the verifier sets the expected
  predecessor hash to the recomputed digest of the line, not to its stored hash. So
  when one field other than \<^verbatim>\<open>hash\<close> and \<^verbatim>\<open>prev_hash\<close> of a record that has a
  successor is changed in a valid chain, and the digest of the record changes with
  it, the verifier reports exactly a tamper finding on that line and a chain-link
  finding on the next line, and nothing on any later line.
\<close>

theorem tampered_content_field_report:
  assumes ok: "chain_ok sha dumps (genesis_hash sha) (pre @ Json (JDict d) # nxt # post)"
      and k: "k \<noteq> ''hash'' \<and> k \<noteq> ''prev_hash''"
      and differs: "calculate_hash sha dumps (fmupd k v d) \<noteq> calculate_hash sha dumps d"
  shows "verify_chain sha dumps (Some (pre @ Json (JDict (fmupd k v d)) # nxt # post))
           = Inr ([TamperError (length pre + 1), ChainLinkError (length pre + 2)], False)
       \<and> (verify_line sha dumps i (Json (JDict r)) st = Inr st'
            \<longrightarrow> previous_hash st' = calculate_hash sha dumps r)"
proof -
  let ?e = "tail_digest sha dumps (genesis_hash sha) pre"
  let ?d' = "fmupd k v d"
  from ok have c1: "chain_ok sha dumps (previous_hash (initial_state sha)) pre"
    and l1: "line_ok sha dumps ?e (Json (JDict d))"
    and l2: "line_ok sha dumps (calculate_hash sha dumps d) nxt"
    and c3: "chain_ok sha dumps (digest_of sha dumps (calculate_hash sha dumps d) nxt) post"
    by (simp_all add: chain_ok_append initial_state_def digest_of_def)
  from l2 obtain dn where nxt: "nxt = Json (JDict dn)"
    and n1: "fmlookup dn ''prev_hash'' = Some (JStr (calculate_hash sha dumps d))"
    and n2: "fmlookup dn ''hash'' = Some (JStr (calculate_hash sha dumps dn))"
    by (cases nxt) (auto simp: line_ok_def split: json.splits)
  from l1 k have t1: "fmlookup ?d' ''prev_hash'' = Some (JStr ?e)"
    and t2: "fmlookup ?d' ''hash'' = Some (JStr (calculate_hash sha dumps d))"
    by (auto simp: line_ok_def)
  let ?s1 = "(initial_state sha)\<lparr>previous_hash := ?e\<rparr>"
  have s1: "verify_lines sha dumps 0 pre (initial_state sha) = Inr ?s1"
    using verify_lines_chain_ok [OF c1, of 0] by (simp add: initial_state_def)
  let ?s2 = "(report (TamperError (length pre + 1)) ?s1)
               \<lparr>previous_hash := calculate_hash sha dumps ?d'\<rparr>"
  have s2: "verify_line sha dumps (length pre) (Json (JDict ?d')) ?s1 = Inr ?s2"
    using differs by (simp add: verify_line_dict [OF t1 t2])
  let ?s3 = "(report (ChainLinkError (length pre + 2)) ?s2)
               \<lparr>previous_hash := calculate_hash sha dumps dn\<rparr>"
  have s3: "verify_line sha dumps (length pre + 1) nxt ?s2 = Inr ?s3"
    using differs by (simp add: nxt verify_line_dict [OF n1 n2] report_def)
  have "chain_ok sha dumps (previous_hash ?s3) post"
    using c3 by (simp add: nxt digest_of_def)
  from verify_lines_chain_ok [OF this, of "length pre + 2"]
  have s4: "verify_lines sha dumps (length pre + 2) post ?s3 =
              Inr (?s3\<lparr>previous_hash := tail_digest sha dumps (previous_hash ?s3) post\<rparr>)"
    by simp
  have a: "verify_chain sha dumps (Some (pre @ Json (JDict ?d') # nxt # post))
           = Inr ([TamperError (length pre + 1), ChainLinkError (length pre + 2)], False)"
    using s1 s2 s3 s4
    by (simp add: verify_chain_lines verify_lines_append report_def initial_state_def)
  have b: "verify_line sha dumps i (Json (JDict r)) st = Inr st'
            \<longrightarrow> previous_hash st' = calculate_hash sha dumps r"
    by (auto simp: verify_line_def Let_def split: option.splits)
  from a b show ?thesis by blast
qed

theorem tampered_content_field_report_witness:
  "chain_ok sha_stub dumps_stub (genesis_hash sha_stub)
     ([] @ Json (JDict (record_dict record_1)) # Json (JDict (record_dict record_2)) # [])
   \<and> (''output'' \<noteq> ''hash'' \<and> ''output'' \<noteq> ''prev_hash'')
   \<and> calculate_hash sha_stub dumps_stub (fmupd ''output'' (JStr ''TAMPERED'') (record_dict record_1))
       \<noteq> calculate_hash sha_stub dumps_stub (record_dict record_1)
   \<and> verify_chain sha_stub dumps_stub
       (Some [Json (JDict (fmupd ''output'' (JStr ''TAMPERED'') (record_dict record_1))),
              Json (JDict (record_dict record_2))])
       = Inr ([TamperError 1, ChainLinkError 2], False)"
proof -
  have a: "chain_ok sha_stub dumps_stub (genesis_hash sha_stub)
     ([] @ Json (JDict (record_dict record_1)) # Json (JDict (record_dict record_2)) # [])"
    using chain_ok_log_2 by simp
  have b: "''output'' \<noteq> ''hash'' \<and> ''output'' \<noteq> ''prev_hash''" by simp
  from tampered_content_field_report [OF a b output_tamper_changes_digest] have
    "verify_chain sha_stub dumps_stub
       (Some ([] @ Json (JDict (fmupd ''output'' (JStr ''TAMPERED'') (record_dict record_1)))
              # Json (JDict (record_dict record_2)) # []))
       = Inr ([TamperError (length ([] :: unit line list) + 1),
               ChainLinkError (length ([] :: unit line list) + 2)], False)"
    by blast
  then show ?thesis using a b output_tamper_changes_digest by simp
qed

text \<open>
  Claim C4 as stated speaks of any single field. The field \<^verbatim>\<open>hash\<close> is left out of
  the digest: when it is the one that is changed, the recomputed digest of the line is
  unchanged, the next line still links to it, and the only finding is the tamper
  finding on the changed line.
\<close>

theorem tampered_hash_field_counterexample:
  "verify_chain sha_stub dumps_stub log_2 = Inr ([], True)
   \<and> verify_chain sha_stub dumps_stub
     (Some [Json (JDict (fmupd ''hash'' (JStr ''TAMPERED'') (record_dict record_1))),
            Json (JDict (record_dict record_2))])
     = Inr ([TamperError 1], False)
   \<and> verify_chain sha_stub dumps_stub
     (Some [Json (JDict (fmupd ''hash'' (JStr ''TAMPERED'') (record_dict record_1))),
            Json (JDict (record_dict record_2))])
     \<noteq> Inr ([TamperError 1, ChainLinkError 2], False)"
proof -
  have "verify_chain sha_stub dumps_stub log_2 = Inr ([], True)"
    using verify_chain_chain_ok [of sha_stub dumps_stub log_2] chain_ok_log_2
    by (simp add: log_2_def)
  then show ?thesis by (simp add: verify_hash_field_tampered)
qed

subsection \<open>The tail hash\<close>





subsection \<open>Missing required fields\<close>

text \<open>
  Claim C8. When the input mapping lacks at least one of the required fields
  \<^verbatim>\<open>model\<close>, \<^verbatim>\<open>config\<close>, \<^verbatim>\<open>prompt\<close>, \<^verbatim>\<open>context_sources\<close>, \<^verbatim>\<open>output\<close>, the command fails with
  the error that names exactly the missing required fields, no record is returned
  and the log file is what it was.
\<close>

theorem missing_required_field_aborts:
  assumes "f \<in> set required_fields" and "f |\<notin>| fmdom data"
  shows "\<exists>missing. cli_log fl sha dumps i t data lf = (Inl (Abort (BadParameter missing)), lf)
           \<and> set missing = {g \<in> set required_fields. g |\<notin>| fmdom data}
           \<and> f \<in> set missing"
  using assms by (auto simp: cli_log_def list_all_iff Let_def)

theorem missing_required_field_aborts_witness:
  "''config'' \<in> set required_fields \<and> ''config'' |\<notin>| fmdom incomplete_input
   \<and> (\<exists>missing. cli_log float_stub sha_stub dumps_stub ''id-3'' ''2024-01-01T00:00:02'' incomplete_input log_2
                  = (Inl (Abort (BadParameter missing)), log_2)
               \<and> set missing = {g \<in> set required_fields. g |\<notin>| fmdom incomplete_input}
               \<and> ''config'' \<in> set missing)
   \<and> cli_log float_stub sha_stub dumps_stub ''id-3'' ''2024-01-01T00:00:02'' incomplete_input log_2
       = (Inl (Abort (BadParameter [''config'', ''context_sources'', ''output''])), log_2)"
proof -
  have a: "''config'' \<in> set required_fields" by (simp add: required_fields_def)
  have b: "''config'' |\<notin>| fmdom incomplete_input" by (simp add: incomplete_input_def)
  have e: "cli_log float_stub sha_stub dumps_stub ''id-3'' ''2024-01-01T00:00:02'' incomplete_input log_2
       = (Inl (Abort (BadParameter [''config'', ''context_sources'', ''output''])), log_2)"
    by (simp add: cli_log_def required_fields_def incomplete_input_def)
  from missing_required_field_aborts
         [OF a b, of float_stub sha_stub dumps_stub "''id-3''" "''2024-01-01T00:00:02''" log_2]
       a b e
  show ?thesis by blast
qed

subsection \<open>Locating a record\<close>

lemma replay_lines_no_match:
  "list_all (no_match q) pre \<Longrightarrow>
   replay_lines M fl P q (pre @ rest) = replay_lines M fl P q rest"
  by (induction pre) (auto simp: no_match_def split: option.splits json.splits)




lemma pre_no_match:
  "list_all (no_match ''id-2'') [NotJson ''garbage'', Json (JDict (record_dict record_1))]"
  by code_simp

lemma bare_id_2_invalid:
  "fmlookup bare_id_2 ''decision_id'' = Some (JStr ''id-2'') \<and> schema_parse_obj bare_id_2 = None"
  by code_simp

text \<open>
  The query and the fields of the record are put into the markup as they are. With
  the stand-in for the markup reader, a query that holds a closing tag makes the
  not-found message raise, and so does the display of a record whose model name
  holds one.
\<close>

lemma markup_error_examples:
  "replay_decision markup_stub float_stub schema_parse_obj True
     (Some [Json (JDict (record_dict record_1))]) ''[/x]'' = Inl MarkupError
   \<and> display_record markup_stub float_stub (record_2\<lparr>model := ''llama-2 [/INST]''\<rparr>)
       = Inl MarkupError"
  by code_simp




text \<open>
  Claim C10, as amended. A line is skipped only when it fails JSON parsing. When
  every line before it fails to parse or is an object with another \<^verbatim>\<open>decision_id\<close>,
  an object whose \<^verbatim>\<open>decision_id\<close> equals the query and that the schema rejects makes
  the locator raise the validation error, and a line that is valid JSON but not an
  object makes it raise \<^verbatim>\<open>AttributeError\<close>; neither is skipped, and not-found is not
  returned.
\<close>

theorem schema_invalid_match_raises:
  assumes "list_all (no_match q) pre"
  shows "(json_loads line = Some (JDict d) \<and> fmlookup d ''decision_id'' = Some (JStr q)
            \<and> P d = None \<longrightarrow>
          replay_decision M fl P True (Some (pre @ line # post)) q = Inl ValidationError)
       \<and> (json_loads line = Some v \<and> \<not> is_dict v \<longrightarrow>
          replay_decision M fl P True (Some (pre @ line # post)) q = Inl AttributeError)"
  using replay_lines_no_match [OF assms, of M fl P "line # post"]
  by (auto simp: replay_decision_def is_dict_def split: json.splits)

theorem schema_invalid_match_raises_witness:
  "list_all (no_match ''id-2'') [NotJson ''garbage'', Json (JDict (record_dict record_1))]
   \<and> schema_parse_obj bare_id_2 = None
   \<and> replay_decision markup_stub float_stub schema_parse_obj True
       (Some ([NotJson ''garbage'', Json (JDict (record_dict record_1))]
              @ Json (JDict bare_id_2) # [Json (JDict (record_dict record_2))])) ''id-2''
       = Inl ValidationError"
proof -
  have a: "json_loads (Json (JDict bare_id_2)) = Some (JDict bare_id_2)" by simp
  note t = schema_invalid_match_raises [OF pre_no_match, where M = markup_stub
      and fl = float_stub and P = schema_parse_obj
      and line = "Json (JDict bare_id_2)" and d = bare_id_2
      and post = "[Json (JDict (record_dict record_2))]"]
  from t a bare_id_2_invalid pre_no_match show ?thesis by blast
qed

text \<open>
  Claim C10 as stated holds for every log in which the first line with the wanted
  \<^verbatim>\<open>decision_id\<close> is valid JSON that the schema rejects. When a line before it is valid
  JSON but not an object, the locator raises \<^verbatim>\<open>AttributeError\<close> at that earlier line and
  never reaches the line with the wanted identifier.
\<close>

theorem non_object_line_before_match_counterexample:
  "replay_decision markup_stub float_stub schema_parse_obj True
     (Some [Json (JList []), Json (JDict bare_id_2)]) ''id-2''
     = Inl AttributeError
   \<and> replay_decision markup_stub float_stub schema_parse_obj True
       (Some [Json (JList []), Json (JDict bare_id_2)]) ''id-2''
     \<noteq> Inl ValidationError
   \<and> fmlookup bare_id_2 ''decision_id'' = Some (JStr ''id-2'')
   \<and> schema_parse_obj bare_id_2 = None"
  using bare_id_2_invalid by (simp add: replay_decision_def)

end
